theory Spec2Isabelle
  imports Main "HOL-Library.Word"
begin

section \<open>Boost Prompt: a shallow embedding of the extension's logic\<close>

text \<open>
  The extension is TypeScript running inside an editor host. Its functions are embedded as
  HOL functions over an explicit \<open>world\<close> (the module-level model cache, the two
  configuration keys, the file system and the ordered list of everything written to the
  output channel or shown in a window) and an explicit \<open>host\<close> (what the environment
  answers: the glob library, the path library, model discovery, the user's clicks).
  An exception is a value: a computation that can throw returns \<open>exn + 'a\<close> with
  \<open>Inl\<close> the exception, and every \<open>try/catch\<close> of the source is a case distinction on it.
\<close>

subsection \<open>Strings, null and exceptions\<close>

text \<open>A JavaScript string is a sequence of UTF-16 code units.\<close>

type_synonym jsstring = "16 word list"

definition js :: "string \<Rightarrow> jsstring" where
  "js s = map of_char s"

definition nl :: jsstring where
  "nl = [0x0A]"

text \<open>
  \<open>String.prototype.trim\<close> removes WhiteSpace and LineTerminator code points from both
  ends (ECMAScript, 22.1.3.32): TAB, LF, VT, FF, CR, SP, NBSP, the space separators
  U+1680, U+2000..U+200A, U+202F, U+205F, U+3000, the separators U+2028 and U+2029, and
  U+FEFF. All of them are single code units.
\<close>

definition isWhiteSpace :: "16 word \<Rightarrow> bool" where
  "isWhiteSpace c =
     (c = 0x09 \<or> c = 0x0A \<or> c = 0x0B \<or> c = 0x0C \<or> c = 0x0D \<or> c = 0x20 \<or> c = 0xA0
      \<or> c = 0x1680 \<or> (0x2000 \<le> c \<and> c \<le> 0x200A) \<or> c = 0x2028 \<or> c = 0x2029
      \<or> c = 0x202F \<or> c = 0x205F \<or> c = 0x3000 \<or> c = 0xFEFF)"

definition trim :: "jsstring \<Rightarrow> jsstring" where
  "trim s = rev (dropWhile isWhiteSpace (rev (dropWhile isWhiteSpace s)))"

text \<open>A value that may be \<open>undefined\<close> or \<open>null\<close>.\<close>

datatype 'a nullable = Undefined | Null | Defined 'a

datatype exn = TypeError jsstring | HostError jsstring

subsection \<open>Model endpoints\<close>

text \<open>
  \<open>response.text\<close> is an async iterable. Its \<open>i\<close>-th step yields a fragment, completes,
  or throws; nothing bounds the number of fragments, so a stream is a function on \<open>nat\<close>
  and reading stops at the first step that is not a fragment.
\<close>

datatype stream_event = Chunk jsstring | Done | Throws exn

record response =
  response_text :: "nat \<Rightarrow> stream_event"

datatype chat_message = User jsstring

text \<open>\<open>sendRequest\<close> rejects, resolves to nothing, or resolves to a response.\<close>

datatype send_outcome = Rejects exn | Resolves "response option"

record model =
  model_id :: jsstring
  model_name :: jsstring
  model_family :: jsstring
  sendRequest :: "chat_message list \<Rightarrow> send_outcome"

record quick_pick_item =
  label :: jsstring
  description :: jsstring
  item_model :: model

subsection \<open>Effects\<close>

text \<open>
  One constructor per \<open>boostPromptOutputChannel.appendLine\<close> call of the modelled
  functions, carrying the values the source interpolates into the line (the rendering of
  numbers and the decoration of the text are not modelled).
\<close>

datatype log_line =
    Boosting nat
  | RequestFailed exn
  | NoResponseFromModel
  | EmptyResponse
  | SuccessChars nat nat
  | StreamFailed exn
  | UnexpectedError exn
  | Discovered nat "jsstring list"
  | NoAvailableModelsFound
  | ErrorDiscoveringModels exn
  | NoModelsAvailable
  | UsingPreferred jsstring
  | ModelSelectionCancelled
  | PreferredModelUpdated jsstring
  | NoPatternsConfigured
  | WildcardFound
  | FullPath jsstring
  | Basename jsstring
  | PatternsToMatch "jsstring list"
  | PatternResult jsstring bool
  | FinalResult bool
  | ErrorReadingInstructionFile exn
  | BoostInvoked jsstring
  | CancelledByUser
  | TerminatedNoModel
  | FailedLine
  | SuccessLine
  | ErrorDuringBoosting

datatype effect =
    AppendLine log_line
  | ShowErrorMessage jsstring "jsstring list"
  | ShowWarningMessage jsstring "jsstring list"
  | ShowInformationMessage jsstring
  | ShowQuickPick "quick_pick_item list"
  | ShowOutputChannel
  | ReplaceDocument jsstring
  | ReplaceSelection jsstring

subsection \<open>The world and the host\<close>

datatype node = File jsstring | Unreadable exn

type_synonym filesystem = "jsstring \<rightharpoonup> node"

record world =
  cachedAvailableModels :: "model list"
  preferredModel :: "jsstring nullable"
  filePatterns :: "jsstring list nullable"
  files :: filesystem
  effects :: "effect list"

text \<open>
  What the environment answers. \<open>minimatch\<close> and \<open>path_join\<close> are the two library
  functions the source imports; the other fields are the host's answer to model discovery,
  the outcome of writing the configuration, and what the user does with each dialog (the
  button clicked, the index of the item picked; \<open>None\<close> when dismissed), whether
  \<open>editor.edit\<close> rejects, and what the progress dialog's cancellation token says at the
  two places where the source reads it.
\<close>

record host =
  minimatch :: "jsstring \<Rightarrow> jsstring \<Rightarrow> exn + bool"
  path_join :: "jsstring \<Rightarrow> jsstring \<Rightarrow> jsstring"
  selectChatModels :: "exn + model list nullable"
  configUpdateRejects :: "exn option"
  answerWarning :: "jsstring option"
  answerError :: "jsstring option"
  answerQuickPick :: "nat option"
  editRejects :: "exn option"
  cancelledBefore :: bool
  cancelledAfter :: bool

record extension_context =
  globalStoragePath :: jsstring

definition emit :: "effect \<Rightarrow> world \<Rightarrow> world" where
  "emit e w = w\<lparr>effects := effects w @ [e]\<rparr>"

definition appendLine :: "log_line \<Rightarrow> world \<Rightarrow> world" where
  "appendLine l w = emit (AppendLine l) w"

text \<open>\<open>getConfiguration("boostPrompt").get(key, defaultValue)\<close>: only an unset key takes
  the default; a key set to \<open>null\<close> reads as \<open>null\<close>.\<close>

definition config_get :: "'a nullable \<Rightarrow> 'a \<Rightarrow> 'a nullable" where
  "config_get v d = (case v of Undefined \<Rightarrow> Defined d | Null \<Rightarrow> Null | Defined x \<Rightarrow> Defined x)"

subsection \<open>The instruction file (utils.ts, File I/O Utilities)\<close>

definition DEFAULT_BOOST_INSTRUCTIONS :: jsstring where
  "DEFAULT_BOOST_INSTRUCTIONS =
     js ''You are a professional prompt engineer specializing in crafting precise, effective prompts.'' @ nl @
     js ''Your task is to enhance prompts by making them more specific, actionable, and effective.'' @ nl @
     nl @
     js ''**Formatting Requirements:**'' @ nl @
     js ''- Use Markdown formatting in your response.'' @ nl @
     js ''- Present requirements, constraints, and steps as bulleted or numbered lists.'' @ nl @
     js ''- Separate context, instructions, and examples into clear paragraphs.'' @ nl @
     js ''- Use headings if appropriate.'' @ nl @
     js ''- Ensure the prompt is easy to read and visually organized.'' @ nl @
     nl @
     js ''**Instructions:**'' @ nl @
     js ''- Improve the user prompt wrapped in `<original_prompt>` tags.'' @ nl @
     js ''- Make instructions explicit and unambiguous.'' @ nl @
     js ''- Add relevant context and constraints.'' @ nl @
     js ''- Remove redundant information.'' @ nl @
     js ''- Maintain the core intent.'' @ nl @
     js ''- Ensure the prompt is self-contained.'' @ nl @
     js ''- Use professional language.'' @ nl @
     js ''- Add references to documentation or examples if applicable.'' @ nl @
     nl @
     js ''**For invalid or unclear prompts:**'' @ nl @
     js ''- Respond with clear, professional guidance.'' @ nl @
     js ''- Keep responses concise and actionable.'' @ nl @
     js ''- Maintain a helpful, constructive tone.'' @ nl @
     js ''- Focus on what the user should provide.'' @ nl @
     js ''- Use a standard template for consistency.'' @ nl @
     nl @
     js ''**IMPORTANT:**'' @ nl @
     js ''Your response must ONLY contain the enhanced prompt text, formatted as described.'' @ nl @
     js ''Do not include any explanations, metadata, or wrapper tags.''"

definition existsSync :: "filesystem \<Rightarrow> jsstring \<Rightarrow> bool" where
  "existsSync fs p = (case fs p of None \<Rightarrow> False | Some n \<Rightarrow> True)"

definition readFileSync :: "filesystem \<Rightarrow> jsstring \<Rightarrow> exn + jsstring" where
  "readFileSync fs p =
     (case fs p of
        None \<Rightarrow> Inl (HostError (js ''ENOENT''))
      | Some (File contents) \<Rightarrow> Inr contents
      | Some (Unreadable err) \<Rightarrow> Inl err)"

definition getInstructionFilePath :: "host \<Rightarrow> extension_context \<Rightarrow> jsstring" where
  "getInstructionFilePath h ctx = path_join h (globalStoragePath ctx) (js ''boost.prompt.md'')"

text \<open>utils.ts, \<open>readInstructionFile\<close>: the \<open>try\<close> covers the existence test and the read;
  the \<open>catch\<close> logs and falls through to the default.\<close>

definition readInstructionFile :: "host \<Rightarrow> extension_context \<Rightarrow> world \<Rightarrow> (exn + jsstring) \<times> world" where
  "readInstructionFile h ctx w =
     (let filePath = getInstructionFilePath h ctx in
      if existsSync (files w) filePath then
        (case readFileSync (files w) filePath of
           Inr contents \<Rightarrow> (Inr contents, w)
         | Inl err \<Rightarrow> (Inr DEFAULT_BOOST_INSTRUCTIONS, appendLine (ErrorReadingInstructionFile err) w))
      else (Inr DEFAULT_BOOST_INSTRUCTIONS, w))"

subsection \<open>The boost workflow (boostPrompt.ts)\<close>

datatype status = Success | Failed | Terminated

record BoostPromptResult =
  result :: jsstring
  status :: status

text \<open>The \<open>for await\<close> loop of \<open>boostPrompt\<close>: \<open>None\<close> is a loop that never ends,
  \<open>Some (Inl err)\<close> a stream that threw, \<open>Some (Inr enhanced)\<close> the concatenation.\<close>

partial_function (option) drain :: "(nat \<Rightarrow> stream_event) \<Rightarrow> nat \<Rightarrow> jsstring \<Rightarrow> (exn + jsstring) option" where
  "drain chunks i enhanced =
     (case chunks i of
        Chunk chunk \<Rightarrow> drain chunks (Suc i) (enhanced @ chunk)
      | Done \<Rightarrow> Some (Inr enhanced)
      | Throws err \<Rightarrow> Some (Inl err))"

definition failed :: "jsstring \<Rightarrow> BoostPromptResult" where
  "failed promptText = \<lparr>result = promptText, status = Failed\<rparr>"

text \<open>Line 20: the one message of the request.\<close>

definition buildMessages :: "jsstring \<Rightarrow> jsstring \<Rightarrow> chat_message list" where
  "buildMessages instructions promptText =
     [User (instructions @ nl @ nl @ js ''<original_prompt>'' @ nl @ promptText
            @ nl @ js ''</original_prompt>'')]"

text \<open>Lines 18 to 55: the body of the outer \<open>try\<close>.\<close>

definition boostPrompt_try ::
  "host \<Rightarrow> jsstring \<Rightarrow> model \<Rightarrow> extension_context \<Rightarrow> world \<Rightarrow> ((exn + BoostPromptResult) \<times> world) option" where
  "boostPrompt_try h promptText m ctx w =
     (case readInstructionFile h ctx w of
        (Inl err, w1) \<Rightarrow> Some (Inl err, w1)
      | (Inr instructions, w1) \<Rightarrow>
          (let messages = buildMessages instructions promptText;
               w2 = appendLine (Boosting (length promptText)) w1
           in case sendRequest m messages of
                Rejects err \<Rightarrow> Some (Inr (failed promptText), appendLine (RequestFailed err) w2)
              | Resolves None \<Rightarrow> Some (Inr (failed promptText), appendLine NoResponseFromModel w2)
              | Resolves (Some response) \<Rightarrow>
                  (case drain (response_text response) 0 [] of
                     None \<Rightarrow> None
                   | Some (Inl err) \<Rightarrow> Some (Inr (failed promptText), appendLine (StreamFailed err) w2)
                   | Some (Inr enhanced) \<Rightarrow>
                       if trim enhanced = [] then
                         Some (Inr (failed promptText), appendLine EmptyResponse w2)
                       else
                         Some (Inr \<lparr>result = enhanced, status = Success\<rparr>,
                               appendLine (SuccessChars (length promptText) (length enhanced)) w2))))"

text \<open>Lines 17 and 56 to 59: the outer \<open>catch\<close>.\<close>

definition boostPrompt ::
  "host \<Rightarrow> jsstring \<Rightarrow> model \<Rightarrow> extension_context \<Rightarrow> world \<Rightarrow> ((exn + BoostPromptResult) \<times> world) option" where
  "boostPrompt h promptText m ctx w =
     (case boostPrompt_try h promptText m ctx w of
        None \<Rightarrow> None
      | Some (Inl err, w1) \<Rightarrow> Some (Inr (failed promptText), appendLine (UnexpectedError err) w1)
      | Some (Inr r, w1) \<Rightarrow> Some (Inr r, w1))"

text \<open>A response that streams the fragments \<open>fs\<close> in order and then completes
  (\<open>None\<close>) or throws (\<open>Some err\<close>).\<close>

definition stream_of :: "jsstring list \<Rightarrow> exn option \<Rightarrow> nat \<Rightarrow> stream_event" where
  "stream_of fs ending i =
     (if i < length fs then Chunk (fs ! i)
      else case ending of None \<Rightarrow> Done | Some err \<Rightarrow> Throws err)"

subsection \<open>The model registry (utils.ts, Model Management Utilities)\<close>

text \<open>
  \<open>initializeAndCacheModels\<close>. \<open>models.filter\<close> on a missing list throws a TypeError,
  which the \<open>catch\<close> logs like a failed host call. The assignment to the cache is
  guarded by \<open>models?.length\<close>, the length of the unfiltered list.
\<close>

definition initializeAndCacheModels :: "host \<Rightarrow> world \<Rightarrow> (exn + unit) \<times> world" where
  "initializeAndCacheModels h w =
     (case selectChatModels h of
        Inl err \<Rightarrow> (Inr (), appendLine (ErrorDiscoveringModels err) w)
      | Inr Undefined \<Rightarrow>
          (Inr (), appendLine (ErrorDiscoveringModels (TypeError (js ''models is undefined''))) w)
      | Inr Null \<Rightarrow>
          (Inr (), appendLine (ErrorDiscoveringModels (TypeError (js ''models is null''))) w)
      | Inr (Defined models) \<Rightarrow>
          (let filteredModels = filter (\<lambda>m. model_id m \<noteq> js ''auto'') models in
           if length models \<noteq> 0 then
             (Inr (), appendLine (Discovered (length models) (map model_name models))
                        (w\<lparr>cachedAvailableModels := filteredModels\<rparr>))
           else (Inr (), appendLine NoAvailableModelsFound w)))"

definition getAvailableModels :: "world \<Rightarrow> model list" where
  "getAvailableModels w = cachedAvailableModels w"

definition findModelByName :: "jsstring \<Rightarrow> world \<Rightarrow> model option" where
  "findModelByName modelName w = find (\<lambda>m. model_name m = modelName) (cachedAvailableModels w)"

definition getPreferredModel :: "world \<Rightarrow> jsstring nullable" where
  "getPreferredModel w = config_get (preferredModel w) []"

definition setPreferredModel :: "host \<Rightarrow> jsstring \<Rightarrow> world \<Rightarrow> (exn + unit) \<times> world" where
  "setPreferredModel h modelName w =
     (case configUpdateRejects h of
        Some err \<Rightarrow> (Inl err, w)
      | None \<Rightarrow> (Inr (), appendLine (PreferredModelUpdated modelName)
                          (w\<lparr>preferredModel := Defined modelName\<rparr>)))"

definition quickPickItems :: "model list \<Rightarrow> quick_pick_item list" where
  "quickPickItems models =
     map (\<lambda>m. \<lparr>label = model_name m,
               description = (if model_family m \<noteq> [] then model_family m else js ''Copilot Model''),
               item_model = m\<rparr>) models"

definition selectModel :: "host \<Rightarrow> world \<Rightarrow> (exn + model option) \<times> world" where
  "selectModel h w =
     (if length (cachedAvailableModels w) = 0 then
        (Inr None,
         emit (ShowErrorMessage
                 (js ''No language models available. Please ensure you have Copilot Chat enabled.'') []) w)
      else
        (let items = quickPickItems (cachedAvailableModels w);
             w1 = emit (ShowQuickPick items) w;
             selected = (case answerQuickPick h of
                           None \<Rightarrow> None
                         | Some i \<Rightarrow> if i < length items then Some (items ! i) else None)
         in case selected of
              Some item \<Rightarrow>
                (let w2 = emit (ShowInformationMessage (js ''Selected: '' @ model_name (item_model item))) w1
                 in case setPreferredModel h (model_name (item_model item)) w2 of
                      (Inl err, w3) \<Rightarrow> (Inl err, w3)
                    | (Inr u, w3) \<Rightarrow> (Inr (Some (item_model item)), w3))
            | None \<Rightarrow> (Inr None, appendLine ModelSelectionCancelled w1)))"

definition getSelectedLanguageModel :: "host \<Rightarrow> world \<Rightarrow> (exn + model option) \<times> world" where
  "getSelectedLanguageModel h w =
     (let availableModels = getAvailableModels w in
      if length availableModels = 0 then
        (Inr None,
         appendLine NoModelsAvailable
           (emit (ShowErrorMessage (js ''No language models available. Enable Copilot Chat.'') []) w))
      else
        (case getPreferredModel w of
           Defined preferredName \<Rightarrow>
             if preferredName \<noteq> [] then
               (case findModelByName preferredName w of
                  Some preferred \<Rightarrow> (Inr (Some preferred), appendLine (UsingPreferred (model_name preferred)) w)
                | None \<Rightarrow>
                    (let w1 = emit (ShowWarningMessage
                                      (js ''Preferred model '' @ [0x22] @ preferredName @ [0x22]
                                         @ js '' not found. Select new?'')
                                      [js ''Select Model'']) w
                     in if answerWarning h \<noteq> Some (js ''Select Model'') then
                          (Inr None, appendLine ModelSelectionCancelled w1)
                        else selectModel h w1))
             else selectModel h w
         | Undefined \<Rightarrow> selectModel h w
         | Null \<Rightarrow> selectModel h w))"

subsection \<open>File eligibility (utils.ts, File Pattern Utilities)\<close>

text \<open>\<open>fileName.split(/[/\\]/)\<close>: the segments between separators; never an empty array.\<close>

definition isSeparator :: "16 word \<Rightarrow> bool" where
  "isSeparator c = (c = 0x2F \<or> c = 0x5C)"

fun split_sep :: "jsstring \<Rightarrow> jsstring list" where
  "split_sep [] = [[]]"
| "split_sep (c # cs) =
     (if isSeparator c then [] # split_sep cs
      else (case split_sep cs of
              [] \<Rightarrow> [[c]]
            | seg # segs \<Rightarrow> (c # seg) # segs))"

text \<open>\<open>segments.pop() || fileName\<close>: an empty last segment is falsy.\<close>

definition baseNameOf :: "jsstring \<Rightarrow> jsstring" where
  "baseNameOf fileName =
     (let popped = last (split_sep fileName) in
      if popped \<noteq> [] then popped else fileName)"

text \<open>\<open>patterns.some(...)\<close>: patterns are tried in order up to the first match; an
  exception thrown by the callback leaves \<open>some\<close> at once.\<close>

fun some_pattern :: "host \<Rightarrow> jsstring \<Rightarrow> jsstring list \<Rightarrow> world \<Rightarrow> (exn + bool) \<times> world" where
  "some_pattern h baseName [] w = (Inr False, w)"
| "some_pattern h baseName (pattern # rest) w =
     (case minimatch h baseName pattern of
        Inl err \<Rightarrow> (Inl err, w)
      | Inr r \<Rightarrow>
          (let w1 = appendLine (PatternResult pattern r) w in
           if r then (Inr True, w1) else some_pattern h baseName rest w1))"

text \<open>Lines 82 to 105 of \<open>isBoostEnabledForFile\<close>, as a function of the value read from
  the configuration.\<close>

definition isEligible :: "host \<Rightarrow> jsstring \<Rightarrow> jsstring list nullable \<Rightarrow> world \<Rightarrow> (exn + bool) \<times> world" where
  "isEligible h fileName patterns w =
     (case patterns of
        Undefined \<Rightarrow> (Inr True, appendLine NoPatternsConfigured w)
      | Null \<Rightarrow> (Inr True, appendLine NoPatternsConfigured w)
      | Defined ps \<Rightarrow>
          if length ps = 0 then (Inr True, appendLine NoPatternsConfigured w)
          else if js ''*'' \<in> set ps then (Inr True, appendLine WildcardFound w)
          else
            (let baseName = baseNameOf fileName;
                 w1 = appendLine (PatternsToMatch ps)
                        (appendLine (Basename baseName) (appendLine (FullPath fileName) w))
             in case some_pattern h baseName ps w1 of
                  (Inl err, w2) \<Rightarrow> (Inl err, w2)
                | (Inr matches, w2) \<Rightarrow> (Inr matches, appendLine (FinalResult matches) w2)))"

definition isBoostEnabledForFile :: "host \<Rightarrow> jsstring \<Rightarrow> world \<Rightarrow> (exn + bool) \<times> world" where
  "isBoostEnabledForFile h fileName w =
     isEligible h fileName (config_get (filePatterns w) [js ''*.prompt.md'']) w"

subsection \<open>The editor command (boostPrompt.ts, \<open>boostPromptWithProgress\<close>)\<close>

text \<open>
  The rotating progress message (\<open>setInterval\<close>, \<open>progress.report\<close>) and the
  cancellation listener firing between two steps are timing and are not modelled; the
  two synchronous reads of \<open>token.isCancellationRequested\<close> are host inputs.
\<close>

record editor =
  fileName :: jsstring
  documentText :: jsstring
  selectionText :: "jsstring option"

fun join_with :: "jsstring \<Rightarrow> jsstring list \<Rightarrow> jsstring" where
  "join_with sep [] = []"
| "join_with sep [x] = x"
| "join_with sep (x # y # ys) = x @ sep @ join_with sep (y # ys)"

text \<open>\<open>getEnabledPatternsMessage\<close> reads \<open>patterns.length\<close> with no guard.\<close>

definition getEnabledPatternsMessage :: "world \<Rightarrow> exn + jsstring" where
  "getEnabledPatternsMessage w =
     (case config_get (filePatterns w) [js ''*.prompt.md''] of
        Defined patterns \<Rightarrow>
          Inr (if length patterns > 0 then join_with (js '', '') patterns
               else js ''(empty - enables for all files)'')
      | Undefined \<Rightarrow> Inl (TypeError (js ''patterns is undefined''))
      | Null \<Rightarrow> Inl (TypeError (js ''patterns is null'')))"

definition cancelHandler :: "world \<Rightarrow> world" where
  "cancelHandler w = emit (ShowInformationMessage (js ''Cancelled'')) (appendLine CancelledByUser w)"

definition offerOutput :: "host \<Rightarrow> jsstring \<Rightarrow> world \<Rightarrow> world" where
  "offerOutput h message w =
     (let w1 = emit (ShowErrorMessage message [js ''Open BoostPrompt Output'']) w in
      if answerError h = Some (js ''Open BoostPrompt Output'') then emit ShowOutputChannel w1 else w1)"

text \<open>The callback given to \<open>withProgress\<close>: its \<open>try\<close>, with the \<open>catch\<close> that
  reports any exception of the \<open>try\<close>.\<close>

definition progressCallback ::
  "host \<Rightarrow> extension_context \<Rightarrow> editor \<Rightarrow> model \<Rightarrow> world \<Rightarrow> ((exn + unit) \<times> world) option" where
  "progressCallback h ctx ed m w =
     (let text = (case selectionText ed of None \<Rightarrow> documentText ed | Some selected \<Rightarrow> selected);
          caught = (\<lambda>w'. offerOutput h (js ''An error occurred during boosting. Check output channel'')
                            (appendLine ErrorDuringBoosting w'))
      in if cancelledBefore h then Some (Inr (), cancelHandler w)
         else
           (case boostPrompt h text m ctx w of
              None \<Rightarrow> None
            | Some (Inl err, w1) \<Rightarrow> Some (Inr (), caught w1)
            | Some (Inr r, w1) \<Rightarrow>
                if status r = Terminated then
                  Some (Inr (), emit (ShowWarningMessage (js ''Terminated: no model selected'') [])
                                  (appendLine TerminatedNoModel w1))
                else if status r = Failed then
                  Some (Inr (), offerOutput h (js ''Failed to boost. Check output channel'')
                                  (appendLine FailedLine w1))
                else if cancelledAfter h then Some (Inr (), cancelHandler w1)
                else if status r = Success then
                  (case editRejects h of
                     Some err \<Rightarrow> Some (Inr (), caught w1)
                   | None \<Rightarrow>
                       Some (Inr (),
                             emit (ShowInformationMessage ([0x2705] @ js '' Boost Prompted successfully!''))
                               (appendLine SuccessLine
                                  (emit (case selectionText ed of
                                           None \<Rightarrow> ReplaceDocument (result r)
                                         | Some selected \<Rightarrow> ReplaceSelection (result r)) w1))))
                else Some (Inr (), w1)))"

definition boostPromptWithProgress ::
  "host \<Rightarrow> extension_context \<Rightarrow> editor \<Rightarrow> world \<Rightarrow> ((exn + unit) \<times> world) option" where
  "boostPromptWithProgress h ctx ed w =
     (case isBoostEnabledForFile h (fileName ed) (appendLine (BoostInvoked (fileName ed)) w) of
        (Inl err, w1) \<Rightarrow> Some (Inl err, w1)
      | (Inr enabled, w1) \<Rightarrow>
          if \<not> enabled then
            (case getEnabledPatternsMessage w1 of
               Inl err \<Rightarrow> Some (Inl err, w1)
             | Inr patternsMessage \<Rightarrow>
                 Some (Inr (),
                       emit (ShowErrorMessage
                               (js ''Not enabled for this file. To enable all: ['' @ [0x22] @ js ''*''
                                  @ [0x22] @ js ''] or []. Patterns: '' @ patternsMessage) []) w1))
          else
            (case getSelectedLanguageModel h w1 of
               (Inl err, w2) \<Rightarrow> Some (Inl err, w2)
             | (Inr None, w2) \<Rightarrow>
                 Some (Inr (), emit (ShowWarningMessage (js ''No model selected, boost cancelled.'') []) w2)
             | (Inr (Some m), w2) \<Rightarrow> progressCallback h ctx ed m w2))"

subsection \<open>Streams that end, and inputs for the examples\<close>

text \<open>
  A stream finishes when some step is not a fragment. \<open>glob\<close> is a small matcher
  (\<open>*\<close> any run of code units, \<open>?\<close> any one, everything else literal) and
  \<open>sample_minimatch\<close> puts it behind the length check with which the glob library
  rejects a pattern of more than 65536 code units; they stand for the library in the
  concrete examples only. Every general statement below holds for every \<open>host\<close>.
\<close>

definition finishes :: "(nat \<Rightarrow> stream_event) \<Rightarrow> bool" where
  "finishes chunks = (\<exists>n. \<forall>c. chunks n \<noteq> Chunk c)"

fun glob :: "jsstring \<Rightarrow> jsstring \<Rightarrow> bool" where
  "glob [] [] = True"
| "glob [] (c # cs) = False"
| "glob (p # ps) [] = (p = 0x2A \<and> glob ps [])"
| "glob (p # ps) (c # cs) =
     (if p = 0x2A then glob ps (c # cs) \<or> glob (p # ps) cs
      else if p = 0x3F \<or> p = c then glob ps cs
      else False)"

definition sample_minimatch :: "jsstring \<Rightarrow> jsstring \<Rightarrow> exn + bool" where
  "sample_minimatch name pattern =
     (if length pattern > 65536 then Inl (TypeError (js ''pattern is too long''))
      else Inr (glob pattern name))"

definition sample_host :: host where
  "sample_host =
     \<lparr>minimatch = sample_minimatch,
      path_join = (\<lambda>dir name. dir @ js ''/'' @ name),
      selectChatModels = Inr (Defined []),
      configUpdateRejects = None,
      answerWarning = None,
      answerError = None,
      answerQuickPick = None,
      editRejects = None,
      cancelledBefore = False,
      cancelledAfter = False\<rparr>"

definition sample_context :: extension_context where
  "sample_context = \<lparr>globalStoragePath = js ''/storage''\<rparr>"

definition sample_world :: world where
  "sample_world =
     \<lparr>cachedAvailableModels = [],
      preferredModel = Undefined,
      filePatterns = Undefined,
      files = Map.empty,
      effects = []\<rparr>"

definition sample_model :: "send_outcome \<Rightarrow> model" where
  "sample_model outcome =
     \<lparr>model_id = js ''gpt-x'', model_name = js ''gpt-x'', model_family = js ''gpt'',
      sendRequest = (\<lambda>messages. outcome)\<rparr>"

text \<open>\<open>isChooser\<close> recognises the interactive chooser in the trace; \<open>auto_model\<close> is an endpoint
  with the id that discovery leaves out.\<close>

fun isChooser :: "effect \<Rightarrow> bool" where
  "isChooser (ShowQuickPick items) = True"
| "isChooser e = False"

definition auto_model :: model where
  "auto_model =
     \<lparr>model_id = js ''auto'', model_name = js ''Auto'', model_family = [],
      sendRequest = (\<lambda>messages. Resolves None)\<rparr>"

text \<open>The trace holds the line that only the \<open>terminated\<close> branch of
  \<open>boostPromptWithProgress\<close> writes.\<close>

definition terminatedLogged :: "world \<Rightarrow> bool" where
  "terminatedLogged w = (AppendLine TerminatedNoModel \<in> set (effects w))"

section \<open>Properties\<close>

subsection \<open>Trimming and draining\<close>

lemma trim_empty_iff: "trim s = [] \<longleftrightarrow> (\<forall>c \<in> set s. isWhiteSpace c)"
proof
  assume "trim s = []"
  then have a: "\<forall>c \<in> set (dropWhile isWhiteSpace s). isWhiteSpace c"
    by (simp add: trim_def)
  have "dropWhile isWhiteSpace s = []"
  proof (rule ccontr)
    assume n: "dropWhile isWhiteSpace s \<noteq> []"
    then have "\<not> isWhiteSpace (hd (dropWhile isWhiteSpace s))" by (rule hd_dropWhile)
    moreover from n have "hd (dropWhile isWhiteSpace s) \<in> set (dropWhile isWhiteSpace s)" by simp
    ultimately show False using a by blast
  qed
  then show "\<forall>c \<in> set s. isWhiteSpace c" by simp
next
  assume "\<forall>c \<in> set s. isWhiteSpace c"
  then have d: "dropWhile isWhiteSpace s = []" by simp
  show "trim s = []" unfolding trim_def d by simp
qed

lemma drain_stream_of:
  "i \<le> length fs \<Longrightarrow>
   drain (stream_of fs ending) i acc =
     Some (case ending of None \<Rightarrow> Inr (acc @ concat (drop i fs)) | Some err \<Rightarrow> Inl err)"
proof (induction "length fs - i" arbitrary: i acc)
  case 0
  then have "i = length fs" by simp
  then show ?case
    by (subst drain.simps) (simp add: stream_of_def split: option.splits)
next
  case (Suc k)
  then have lt: "i < length fs" and k: "k = length fs - Suc i" by simp_all
  have "drain (stream_of fs ending) i acc = drain (stream_of fs ending) (Suc i) (acc @ fs ! i)"
    using lt by (subst drain.simps) (simp add: stream_of_def)
  also have "\<dots> = Some (case ending of None \<Rightarrow> Inr ((acc @ fs ! i) @ concat (drop (Suc i) fs)) | Some err \<Rightarrow> Inl err)"
    using Suc.hyps(1) [OF k] lt by simp
  also have "(acc @ fs ! i) @ concat (drop (Suc i) fs) = acc @ concat (drop i fs)"
    using lt by (simp add: Cons_nth_drop_Suc [symmetric])
  finally show ?case .
qed

lemma drain_ends:
  "i \<le> n \<Longrightarrow> (\<forall>c. chunks n \<noteq> Chunk c) \<Longrightarrow> \<exists>r. drain chunks i acc = Some r"
proof (induction "n - i" arbitrary: i acc)
  case 0
  then have "i = n" by simp
  with 0 show ?case by (subst drain.simps) (simp split: stream_event.splits)
next
  case (Suc k)
  show ?case
  proof (cases "chunks i")
    case (Chunk c)
    have "k = n - Suc i" "Suc i \<le> n" using Suc.hyps(2) by simp_all
    from Suc.hyps(1) [OF this Suc.prems(2)] obtain r where "drain chunks (Suc i) (acc @ c) = Some r" by blast
    then show ?thesis using Chunk by (subst drain.simps) simp
  next
    case Done
    then show ?thesis by (subst drain.simps) simp
  next
    case (Throws e)
    then show ?thesis by (subst drain.simps) simp
  qed
qed

lemma drain_endless_aux:
  assumes endless: "\<forall>n. \<exists>c. chunks n = Chunk c" and ret: "drain chunks i acc = Some y"
  shows False
proof -
  have "chunks = chunks \<longrightarrow> False"
  proof (rule drain.raw_induct [where P = "\<lambda>ch i acc y. ch = chunks \<longrightarrow> False", OF _ ret])
    fix d ch i acc y
    assume IH: "\<And>i acc b y. d i acc b = Some y \<Longrightarrow> i = chunks \<longrightarrow> False"
       and eq: "(case ch i of Chunk chunk \<Rightarrow> d ch (Suc i) (acc @ chunk)
                 | Done \<Rightarrow> Some (Inr acc) | Throws err \<Rightarrow> Some (Inl err)) = Some y"
    show "ch = chunks \<longrightarrow> False"
    proof
      assume same: "ch = chunks"
      with endless obtain c where "ch i = Chunk c" by blast
      with eq have "d ch (Suc i) (acc @ c) = Some y" by simp
      from IH [OF this] same show False by simp
    qed
  qed
  then show False by simp
qed

lemma drain_endless:
  "\<forall>n. \<exists>c. chunks n = Chunk c \<Longrightarrow> drain chunks i acc = None"
  using drain_endless_aux [of chunks i acc] by (cases "drain chunks i acc") auto

lemma finishes_stream_of: "finishes (stream_of fs ending)"
  unfolding finishes_def
  by (rule exI [of _ "length fs"]) (simp add: stream_of_def split: option.splits)

lemma readInstructionFile_returns:
  "\<exists>s w'. readInstructionFile h ctx w = (Inr s, w')"
  by (simp add: readInstructionFile_def Let_def split: sum.splits)

lemma sample_instructions:
  "readInstructionFile sample_host sample_context sample_world = (Inr DEFAULT_BOOST_INSTRUCTIONS, sample_world)"
  by (simp add: readInstructionFile_def existsSync_def sample_world_def Let_def)

lemma boostPrompt_streamed:
  assumes "fst (readInstructionFile h ctx w) = Inr instructions"
    and "sendRequest m (buildMessages instructions promptText) = Resolves (Some response)"
    and "drain (response_text response) 0 [] = Some (Inr enhanced)"
  shows "boostPrompt h promptText m ctx w =
           Some (if trim enhanced = []
                 then (Inr \<lparr>result = promptText, status = Failed\<rparr>,
                       appendLine EmptyResponse
                         (appendLine (Boosting (length promptText)) (snd (readInstructionFile h ctx w))))
                 else (Inr \<lparr>result = enhanced, status = Success\<rparr>,
                       appendLine (SuccessChars (length promptText) (length enhanced))
                         (appendLine (Boosting (length promptText)) (snd (readInstructionFile h ctx w)))))"
  using assms
  by (cases "readInstructionFile h ctx w") (simp add: boostPrompt_def boostPrompt_try_def failed_def)


subsection \<open>What the functions leave in the trace\<close>

lemma terminatedLogged_emit:
  "terminatedLogged (emit e w) = (terminatedLogged w \<or> e = AppendLine TerminatedNoModel)"
  by (auto simp: terminatedLogged_def emit_def)

lemma terminatedLogged_appendLine:
  "terminatedLogged (appendLine l w) = (terminatedLogged w \<or> l = TerminatedNoModel)"
  by (auto simp: appendLine_def terminatedLogged_emit)

lemma terminatedLogged_update:
  "terminatedLogged (w\<lparr>cachedAvailableModels := ms\<rparr>) = terminatedLogged w"
  "terminatedLogged (w\<lparr>preferredModel := p\<rparr>) = terminatedLogged w"
  by (simp_all add: terminatedLogged_def)

lemmas tl_simps = terminatedLogged_emit terminatedLogged_appendLine terminatedLogged_update

lemma terminatedLogged_readInstructionFile:
  "terminatedLogged (snd (readInstructionFile h ctx w)) = terminatedLogged w"
  by (simp add: readInstructionFile_def Let_def tl_simps split: sum.splits)

lemma boostPrompt_cases:
  assumes "boostPrompt h promptText m ctx w = Some (r, w')"
  shows "\<exists>res. r = Inr res \<and> (status res = Success \<or> status res = Failed)
              \<and> terminatedLogged w' = terminatedLogged w"
proof -
  obtain i w1 where ri: "readInstructionFile h ctx w = (i, w1)" by (cases "readInstructionFile h ctx w")
  have w1: "terminatedLogged w1 = terminatedLogged w"
    using terminatedLogged_readInstructionFile [of h ctx w] ri by simp
  show ?thesis
    using assms ri w1
    by (auto simp: boostPrompt_def boostPrompt_try_def failed_def Let_def tl_simps
             split: sum.splits send_outcome.splits option.splits if_splits)
qed

lemma boostPrompt_stops_iff:
  "boostPrompt h promptText m ctx w = None \<longleftrightarrow>
     (\<exists>instructions response.
        fst (readInstructionFile h ctx w) = Inr instructions
        \<and> sendRequest m (buildMessages instructions promptText) = Resolves (Some response)
        \<and> \<not> finishes (response_text response))"
proof -
  obtain s w1 where ri: "readInstructionFile h ctx w = (Inr s, w1)"
    using readInstructionFile_returns by blast
  have dr: "\<And>chunks. drain chunks 0 [] = None \<longleftrightarrow> \<not> finishes chunks"
  proof
    fix chunks
    assume "drain chunks 0 [] = None"
    then show "\<not> finishes chunks"
      using drain_ends [of 0 _ chunks "[]"] by (auto simp: finishes_def)
  next
    fix chunks
    assume "\<not> finishes chunks"
    then have "\<forall>n. \<exists>c. chunks n = Chunk c" by (simp add: finishes_def)
    then show "drain chunks 0 [] = None" by (rule drain_endless)
  qed
  show ?thesis
    using ri
    by (auto simp: boostPrompt_def boostPrompt_try_def Let_def dr [symmetric]
             split: send_outcome.splits option.splits sum.splits if_splits)
qed

lemma terminatedLogged_some_pattern:
  "terminatedLogged (snd (some_pattern h b ps w)) = terminatedLogged w"
  by (induction ps arbitrary: w) (auto simp: Let_def tl_simps split: sum.splits)

lemma terminatedLogged_isEligible:
  "terminatedLogged (snd (isEligible h f ps w)) = terminatedLogged w"
proof (cases "\<exists>qs. ps = Defined qs \<and> length qs \<noteq> 0 \<and> js ''*'' \<notin> set qs")
  case True
  then obtain qs where qs: "ps = Defined qs" "length qs \<noteq> 0" "js ''*'' \<notin> set qs" by blast
  define w1 where "w1 = appendLine (PatternsToMatch qs)
                          (appendLine (Basename (baseNameOf f)) (appendLine (FullPath f) w))"
  obtain r w2 where sp: "some_pattern h (baseNameOf f) qs w1 = (r, w2)"
    by (cases "some_pattern h (baseNameOf f) qs w1")
  have "terminatedLogged w2 = terminatedLogged w1"
    using terminatedLogged_some_pattern [of h "baseNameOf f" qs w1] sp by simp
  also have "\<dots> = terminatedLogged w" by (simp add: w1_def tl_simps)
  finally show ?thesis
    using qs sp by (cases r) (simp_all add: isEligible_def Let_def w1_def [symmetric] tl_simps)
next
  case False
  then show ?thesis
    by (cases ps) (auto simp: isEligible_def tl_simps)
qed

lemma terminatedLogged_isBoostEnabledForFile:
  "terminatedLogged (snd (isBoostEnabledForFile h f w)) = terminatedLogged w"
  by (simp add: isBoostEnabledForFile_def terminatedLogged_isEligible)

lemma terminatedLogged_setPreferredModel:
  "terminatedLogged (snd (setPreferredModel h n w)) = terminatedLogged w"
  by (simp add: setPreferredModel_def tl_simps split: option.splits)

lemma terminatedLogged_selectModel:
  "terminatedLogged (snd (selectModel h w)) = terminatedLogged w"
proof (cases "length (cachedAvailableModels w) = 0")
  case True
  then show ?thesis by (simp add: selectModel_def tl_simps)
next
  case False
  define items where "items = quickPickItems (cachedAvailableModels w)"
  define w1 where "w1 = emit (ShowQuickPick items) w"
  define selected where "selected =
    (case answerQuickPick h of None \<Rightarrow> None
     | Some i \<Rightarrow> if i < length items then Some (items ! i) else None)"
  have w1: "terminatedLogged w1 = terminatedLogged w" by (simp add: w1_def tl_simps)
  show ?thesis
  proof (cases selected)
    case None
    with False w1 show ?thesis
      by (simp add: selectModel_def Let_def items_def [symmetric] w1_def [symmetric]
                    selected_def [symmetric] tl_simps)
  next
    case (Some item)
    define w2 where "w2 = emit (ShowInformationMessage (js ''Selected: '' @ model_name (item_model item))) w1"
    obtain r w3 where sp: "setPreferredModel h (model_name (item_model item)) w2 = (r, w3)"
      by (cases "setPreferredModel h (model_name (item_model item)) w2")
    have "terminatedLogged w3 = terminatedLogged w2"
      using terminatedLogged_setPreferredModel [of h "model_name (item_model item)" w2] sp by simp
    also have "\<dots> = terminatedLogged w" using w1 by (simp add: w2_def tl_simps)
    finally show ?thesis
      using False Some sp
      by (cases r)
         (simp_all add: selectModel_def Let_def items_def [symmetric] w1_def [symmetric]
                        selected_def [symmetric] w2_def [symmetric])
  qed
qed

lemma terminatedLogged_getSelectedLanguageModel:
  "terminatedLogged (snd (getSelectedLanguageModel h w)) = terminatedLogged w"
  by (simp add: getSelectedLanguageModel_def Let_def tl_simps terminatedLogged_selectModel
           split: nullable.splits option.splits)

lemma terminatedLogged_cancelHandler:
  "terminatedLogged (cancelHandler w) = terminatedLogged w"
  by (simp add: cancelHandler_def tl_simps)

lemma terminatedLogged_offerOutput:
  "terminatedLogged (offerOutput h msg w) = terminatedLogged w"
  by (simp add: offerOutput_def Let_def tl_simps)

lemma terminatedLogged_progressCallback:
  assumes "progressCallback h ctx ed m w = Some (r, w')"
  shows "terminatedLogged w' = terminatedLogged w"
proof (cases "cancelledBefore h")
  case True
  with assms show ?thesis
    by (auto simp: progressCallback_def terminatedLogged_cancelHandler)
next
  case False
  define content where "content = (case selectionText ed of None \<Rightarrow> documentText ed | Some selected \<Rightarrow> selected)"
  from assms False obtain r1 w1 where bp: "boostPrompt h content m ctx w = Some (r1, w1)"
    by (cases "boostPrompt h content m ctx w") (auto simp: progressCallback_def content_def)
  from boostPrompt_cases [OF bp] obtain res where
    res: "r1 = Inr res" "status res = Success \<or> status res = Failed"
    and w1: "terminatedLogged w1 = terminatedLogged w" by blast
  from assms False bp res have "terminatedLogged w' = terminatedLogged w1"
    by (auto simp: progressCallback_def content_def [symmetric] Let_def tl_simps
                   terminatedLogged_cancelHandler terminatedLogged_offerOutput
             split: option.splits if_splits)
  with w1 show ?thesis by simp
qed

lemma terminatedLogged_boostPromptWithProgress:
  assumes "boostPromptWithProgress h ctx ed w = Some (r, w')"
  shows "terminatedLogged w' = terminatedLogged w"
proof -
  define w0 where "w0 = appendLine (BoostInvoked (fileName ed)) w"
  obtain e w1 where en: "isBoostEnabledForFile h (fileName ed) w0 = (e, w1)"
    by (cases "isBoostEnabledForFile h (fileName ed) w0")
  have w1: "terminatedLogged w1 = terminatedLogged w"
    using terminatedLogged_isBoostEnabledForFile [of h "fileName ed" w0] en
    by (simp add: w0_def tl_simps)
  obtain s w2 where sel: "getSelectedLanguageModel h w1 = (s, w2)"
    by (cases "getSelectedLanguageModel h w1")
  have w2: "terminatedLogged w2 = terminatedLogged w"
    using terminatedLogged_getSelectedLanguageModel [of h w1] sel w1 by simp
  show ?thesis
    using assms en sel w1 w2
    by (auto simp: boostPromptWithProgress_def w0_def [symmetric] tl_simps
             split: sum.splits if_splits option.splits
             dest: terminatedLogged_progressCallback)
qed


subsection \<open>The boost workflow\<close>

text \<open>
  C1. When the endpoint's \<open>sendRequest\<close> throws on the message built from the
  instructions and the prompt, \<open>boostPrompt\<close> returns normally (\<open>Inr\<close>: no exception
  leaves the call) with the original prompt text and status \<open>failed\<close>, after logging
  the request and the error.
\<close>

theorem boostPrompt_submission_throws:
  assumes "fst (readInstructionFile h ctx w) = Inr instructions"
    and "sendRequest m (buildMessages instructions promptText) = Rejects err"
  shows "boostPrompt h promptText m ctx w =
           Some (Inr \<lparr>result = promptText, status = Failed\<rparr>,
                 appendLine (RequestFailed err)
                   (appendLine (Boosting (length promptText)) (snd (readInstructionFile h ctx w))))"
  using assms
  by (cases "readInstructionFile h ctx w") (simp add: boostPrompt_def boostPrompt_try_def failed_def)

theorem boostPrompt_submission_throws_witness:
  "fst (readInstructionFile sample_host sample_context sample_world) = Inr DEFAULT_BOOST_INSTRUCTIONS
   \<and> sendRequest (sample_model (Rejects (HostError (js ''off''))))
        (buildMessages DEFAULT_BOOST_INSTRUCTIONS (js ''fix my bug'')) = Rejects (HostError (js ''off''))
   \<and> boostPrompt sample_host (js ''fix my bug'') (sample_model (Rejects (HostError (js ''off''))))
        sample_context sample_world =
       Some (Inr \<lparr>result = js ''fix my bug'', status = Failed\<rparr>,
             appendLine (RequestFailed (HostError (js ''off''))) (appendLine (Boosting 10) sample_world))"
proof -
  have a: "fst (readInstructionFile sample_host sample_context sample_world) = Inr DEFAULT_BOOST_INSTRUCTIONS"
    by (simp add: sample_instructions)
  have b: "sendRequest (sample_model (Rejects (HostError (js ''off''))))
        (buildMessages DEFAULT_BOOST_INSTRUCTIONS (js ''fix my bug'')) = Rejects (HostError (js ''off''))"
    by (simp add: sample_model_def)
  have n: "length (js ''fix my bug'') = 10"
    by (simp add: js_def)
  show ?thesis
    using a b boostPrompt_submission_throws [OF a b]
    by (simp add: sample_instructions n)
qed


text \<open>
  C2. When the response streams fragments whose concatenation trims to the empty string
  (by \<open>trim_empty_iff\<close>: the fragments are empty or hold only white space), the result
  is the original prompt text, not the concatenation, and the status is \<open>failed\<close>.
\<close>

theorem boostPrompt_blank_response_fails:
  assumes "fst (readInstructionFile h ctx w) = Inr instructions"
    and "sendRequest m (buildMessages instructions promptText) = Resolves (Some response)"
    and "response_text response = stream_of fs None"
    and "trim (concat fs) = []"
  shows "boostPrompt h promptText m ctx w =
           Some (Inr \<lparr>result = promptText, status = Failed\<rparr>,
                 appendLine EmptyResponse
                   (appendLine (Boosting (length promptText)) (snd (readInstructionFile h ctx w))))"
proof -
  have "drain (response_text response) 0 [] = Some (Inr (concat fs))"
    using assms(3) drain_stream_of [of 0 fs None "[]"] by simp
  from boostPrompt_streamed [OF assms(1) assms(2) this] assms(4) show ?thesis by simp
qed

theorem boostPrompt_blank_response_fails_witness:
  "fst (readInstructionFile sample_host sample_context sample_world) = Inr DEFAULT_BOOST_INSTRUCTIONS
   \<and> sendRequest (sample_model (Resolves (Some \<lparr>response_text = stream_of [js '' '', [0x0A, 0x09], []] None\<rparr>)))
         (buildMessages DEFAULT_BOOST_INSTRUCTIONS (js ''fix my bug''))
       = Resolves (Some \<lparr>response_text = stream_of [js '' '', [0x0A, 0x09], []] None\<rparr>)
   \<and> response_text \<lparr>response_text = stream_of [js '' '', [0x0A, 0x09], []] None\<rparr>
       = stream_of [js '' '', [0x0A, 0x09], []] None
   \<and> trim (concat [js '' '', [0x0A, 0x09], []]) = []
   \<and> boostPrompt sample_host (js ''fix my bug'')
         (sample_model (Resolves (Some \<lparr>response_text = stream_of [js '' '', [0x0A, 0x09], []] None\<rparr>)))
         sample_context sample_world
       = Some (Inr \<lparr>result = js ''fix my bug'', status = Failed\<rparr>,
               appendLine EmptyResponse (appendLine (Boosting 10) sample_world))"
proof -
  let ?r = "\<lparr>response_text = stream_of [js '' '', [0x0A, 0x09], []] None\<rparr>"
  have a: "fst (readInstructionFile sample_host sample_context sample_world) = Inr DEFAULT_BOOST_INSTRUCTIONS"
    by (simp add: sample_instructions)
  have b: "sendRequest (sample_model (Resolves (Some ?r)))
             (buildMessages DEFAULT_BOOST_INSTRUCTIONS (js ''fix my bug'')) = Resolves (Some ?r)"
    by (simp add: sample_model_def)
  have c: "response_text ?r = stream_of [js '' '', [0x0A, 0x09], []] None"
    by simp
  have d: "trim (concat [js '' '', [0x0A, 0x09], []]) = []"
    by (simp add: trim_def isWhiteSpace_def js_def)
  have n: "length (js ''fix my bug'') = 10"
    by (simp add: js_def)
  show ?thesis
    using a b c d boostPrompt_blank_response_fails [OF a b c d]
    by (simp add: sample_instructions n)
qed

text \<open>
  C3. When the response streams the fragments \<open>fs\<close> without error and their
  concatenation is not only white space, the result is \<open>concat fs\<close>, the fragments in
  arrival order, with status \<open>success\<close>. The example is the scenario of the
  specification: prompt "fix my bug", fragments "Please ", "describe ", "the bug.".
\<close>

theorem boostPrompt_concatenates_in_order:
  assumes "fst (readInstructionFile h ctx w) = Inr instructions"
    and "sendRequest m (buildMessages instructions promptText) = Resolves (Some response)"
    and "response_text response = stream_of fs None"
    and "trim (concat fs) \<noteq> []"
  shows "boostPrompt h promptText m ctx w =
           Some (Inr \<lparr>result = concat fs, status = Success\<rparr>,
                 appendLine (SuccessChars (length promptText) (length (concat fs)))
                   (appendLine (Boosting (length promptText)) (snd (readInstructionFile h ctx w))))"
proof -
  have "drain (response_text response) 0 [] = Some (Inr (concat fs))"
    using assms(3) drain_stream_of [of 0 fs None "[]"] by simp
  from boostPrompt_streamed [OF assms(1) assms(2) this] assms(4) show ?thesis by simp
qed

theorem boostPrompt_concatenates_in_order_witness:
  "fst (readInstructionFile sample_host sample_context sample_world) = Inr DEFAULT_BOOST_INSTRUCTIONS
   \<and> sendRequest (sample_model (Resolves (Some \<lparr>response_text =
           stream_of [js ''Please '', js ''describe '', js ''the bug.''] None\<rparr>)))
         (buildMessages DEFAULT_BOOST_INSTRUCTIONS (js ''fix my bug''))
       = Resolves (Some \<lparr>response_text = stream_of [js ''Please '', js ''describe '', js ''the bug.''] None\<rparr>)
   \<and> response_text \<lparr>response_text = stream_of [js ''Please '', js ''describe '', js ''the bug.''] None\<rparr>
       = stream_of [js ''Please '', js ''describe '', js ''the bug.''] None
   \<and> trim (concat [js ''Please '', js ''describe '', js ''the bug.'']) \<noteq> []
   \<and> boostPrompt sample_host (js ''fix my bug'')
         (sample_model (Resolves (Some \<lparr>response_text =
            stream_of [js ''Please '', js ''describe '', js ''the bug.''] None\<rparr>)))
         sample_context sample_world
       = Some (Inr \<lparr>result = js ''Please describe the bug.'', status = Success\<rparr>,
               appendLine (SuccessChars 10 24) (appendLine (Boosting 10) sample_world))"
proof -
  let ?fs = "[js ''Please '', js ''describe '', js ''the bug.'']"
  let ?r = "\<lparr>response_text = stream_of ?fs None\<rparr>"
  have a: "fst (readInstructionFile sample_host sample_context sample_world) = Inr DEFAULT_BOOST_INSTRUCTIONS"
    by (simp add: sample_instructions)
  have b: "sendRequest (sample_model (Resolves (Some ?r)))
             (buildMessages DEFAULT_BOOST_INSTRUCTIONS (js ''fix my bug'')) = Resolves (Some ?r)"
    by (simp add: sample_model_def)
  have c: "response_text ?r = stream_of ?fs None"
    by simp
  have d: "trim (concat ?fs) \<noteq> []"
    by (simp add: trim_def isWhiteSpace_def js_def)
  have n: "length (js ''fix my bug'') = 10"
    by (simp add: js_def)
  have e: "concat ?fs = js ''Please describe the bug.''"
    by (simp add: js_def)
  have l: "length (js ''Please describe the bug.'') = 24"
    by (simp add: js_def)
  note t = boostPrompt_concatenates_in_order [OF a b c d, unfolded e l n sample_instructions snd_conv]
  show ?thesis
    using a b c d t by simp
qed

text \<open>
  C10. \<open>boostPrompt\<close> fails to return only when the endpoint streams fragments for
  ever; in every other case (rejection, no response, a stream that completes or throws)
  it returns, and whatever it returns is a normal result whose status is \<open>success\<close> or
  \<open>failed\<close>, never \<open>terminated\<close>. Consequently \<open>boostPromptWithProgress\<close> never takes
  its \<open>terminated\<close> branch: the line that branch logs is in the trace afterwards only if
  it was there before.
\<close>

theorem boostPrompt_never_terminated:
  "(boostPrompt h promptText m ctx w = None \<longleftrightarrow>
      (\<exists>instructions response.
         fst (readInstructionFile h ctx w) = Inr instructions
         \<and> sendRequest m (buildMessages instructions promptText) = Resolves (Some response)
         \<and> \<not> finishes (response_text response)))
   \<and> (\<forall>r w'. boostPrompt h promptText m ctx w = Some (r, w') \<longrightarrow>
         (\<exists>res. r = Inr res \<and> (status res = Success \<or> status res = Failed)))
   \<and> (\<forall>r w'. boostPromptWithProgress h ctx ed w = Some (r, w') \<longrightarrow>
         terminatedLogged w' = terminatedLogged w)"
proof (intro conjI allI impI)
  show "boostPrompt h promptText m ctx w = None \<longleftrightarrow>
      (\<exists>instructions response.
         fst (readInstructionFile h ctx w) = Inr instructions
         \<and> sendRequest m (buildMessages instructions promptText) = Resolves (Some response)
         \<and> \<not> finishes (response_text response))"
    by (rule boostPrompt_stops_iff)
next
  fix r w'
  assume "boostPrompt h promptText m ctx w = Some (r, w')"
  from boostPrompt_cases [OF this]
  show "\<exists>res. r = Inr res \<and> (status res = Success \<or> status res = Failed)" by blast
next
  fix r w'
  assume "boostPromptWithProgress h ctx ed w = Some (r, w')"
  then show "terminatedLogged w' = terminatedLogged w"
    by (rule terminatedLogged_boostPromptWithProgress)
qed

theorem boostPrompt_never_terminated_witness:
  "finishes (stream_of [js ''Please ''] (Some (HostError (js ''closed''))))
   \<and> (\<exists>res w'. boostPrompt sample_host (js ''fix my bug'')
          (sample_model (Resolves (Some \<lparr>response_text =
             stream_of [js ''Please ''] (Some (HostError (js ''closed'')))\<rparr>)))
          sample_context sample_world = Some (Inr res, w')
        \<and> (status res = Success \<or> status res = Failed))"
proof -
  let ?chunks = "stream_of [js ''Please ''] (Some (HostError (js ''closed'')))"
  let ?m = "sample_model (Resolves (Some \<lparr>response_text = ?chunks\<rparr>))"
  note t = boostPrompt_never_terminated
    [of sample_host "js ''fix my bug''" ?m sample_context sample_world]
  have f: "finishes ?chunks" by (rule finishes_stream_of)
  have "boostPrompt sample_host (js ''fix my bug'') ?m sample_context sample_world \<noteq> None"
    using t f by (auto simp: sample_model_def)
  then obtain r w' where
    "boostPrompt sample_host (js ''fix my bug'') ?m sample_context sample_world = Some (r, w')"
    by (cases "boostPrompt sample_host (js ''fix my bug'') ?m sample_context sample_world") auto
  with t f show ?thesis by blast
qed

subsection \<open>The model registry\<close>

text \<open>
  C4, as the code has it. \<open>initializeAndCacheModels\<close> never throws. It replaces the cache
  with the host's list without the entries whose id is "auto" whenever the host returns a
  non-empty list (the cache may become empty, when every entry is "auto"); when the host
  returns an empty list, no list, or throws, the previous cache stays.
\<close>

theorem initializeAndCacheModels_cache:
  "fst (initializeAndCacheModels h w) = Inr ()
   \<and> cachedAvailableModels (snd (initializeAndCacheModels h w)) =
       (case selectChatModels h of
          Inl err \<Rightarrow> cachedAvailableModels w
        | Inr Undefined \<Rightarrow> cachedAvailableModels w
        | Inr Null \<Rightarrow> cachedAvailableModels w
        | Inr (Defined models) \<Rightarrow>
            if models \<noteq> [] then filter (\<lambda>m. model_id m \<noteq> js ''auto'') models
            else cachedAvailableModels w)"
  by (simp add: initializeAndCacheModels_def Let_def appendLine_def emit_def
           split: sum.splits nullable.splits)

theorem initializeAndCacheModels_cache_witness:
  "cachedAvailableModels
     (snd (initializeAndCacheModels
             (sample_host\<lparr>selectChatModels := Inr (Defined [auto_model, sample_model (Resolves None)])\<rparr>)
             sample_world))
   = [sample_model (Resolves None)]"
  using initializeAndCacheModels_cache
    [of "sample_host\<lparr>selectChatModels := Inr (Defined [auto_model, sample_model (Resolves None)])\<rparr>"
        sample_world]
  by (simp add: auto_model_def sample_model_def js_def)

text \<open>
  C4 as stated fails for an empty host result: the guard \<open>models?.length\<close> skips the
  assignment, so a cache filled by an earlier discovery is not replaced by the empty list.
\<close>

theorem initializeAndCacheModels_empty_result_counterexample:
  "selectChatModels (sample_host\<lparr>selectChatModels := Inr (Defined [])\<rparr>) = Inr (Defined [])
   \<and> cachedAvailableModels
       (snd (initializeAndCacheModels (sample_host\<lparr>selectChatModels := Inr (Defined [])\<rparr>)
               (sample_world\<lparr>cachedAvailableModels := [sample_model (Resolves None)]\<rparr>)))
     \<noteq> []"
  by (simp add: initializeAndCacheModels_def Let_def appendLine_def emit_def)

text \<open>
  C5. With an empty cache \<open>getSelectedLanguageModel\<close> returns no model, whatever the
  stored preference and whatever the user would answer; all it does is show the error
  message and log a line, so no quick pick is shown.
\<close>

theorem getSelectedLanguageModel_empty_cache:
  assumes "cachedAvailableModels w = []"
  shows "getSelectedLanguageModel h w =
           (Inr None,
            appendLine NoModelsAvailable
              (emit (ShowErrorMessage (js ''No language models available. Enable Copilot Chat.'') []) w))
         \<and> filter isChooser (effects (snd (getSelectedLanguageModel h w))) = filter isChooser (effects w)"
  using assms
  by (simp add: getSelectedLanguageModel_def getAvailableModels_def appendLine_def emit_def)

theorem getSelectedLanguageModel_empty_cache_witness:
  "cachedAvailableModels (sample_world\<lparr>preferredModel := Defined (js ''gpt-x'')\<rparr>) = []
   \<and> fst (getSelectedLanguageModel (sample_host\<lparr>answerWarning := Some (js ''Select Model''), answerQuickPick := Some 0\<rparr>)
           (sample_world\<lparr>preferredModel := Defined (js ''gpt-x'')\<rparr>)) = Inr None
   \<and> filter isChooser (effects (snd (getSelectedLanguageModel
           (sample_host\<lparr>answerWarning := Some (js ''Select Model''), answerQuickPick := Some 0\<rparr>)
           (sample_world\<lparr>preferredModel := Defined (js ''gpt-x'')\<rparr>)))) = []"
proof -
  have a: "cachedAvailableModels (sample_world\<lparr>preferredModel := Defined (js ''gpt-x'')\<rparr>) = []"
    by (simp add: sample_world_def)
  have e: "effects (sample_world\<lparr>preferredModel := Defined (js ''gpt-x'')\<rparr>) = []"
    by (simp add: sample_world_def)
  show ?thesis
    using a getSelectedLanguageModel_empty_cache [OF a, of "sample_host\<lparr>answerWarning := Some (js ''Select Model''), answerQuickPick := Some 0\<rparr>"]
    by (simp add: e appendLine_def emit_def sample_world_def)
qed

subsection \<open>File eligibility\<close>

lemma split_sep_nonempty: "split_sep s \<noteq> []"
  by (induction s) (auto split: list.splits)

lemma split_sep_append:
  "isSeparator sep \<Longrightarrow> split_sep (dir @ sep # base) = split_sep dir @ split_sep base"
proof (induction dir)
  case Nil
  then show ?case by simp
next
  case (Cons c cs)
  then show ?case
    using split_sep_nonempty [of cs] by (cases "split_sep cs") auto
qed

lemma last_split_sep_append:
  "isSeparator sep \<Longrightarrow> last (split_sep (dir @ sep # base)) = last (split_sep base)"
  by (simp add: split_sep_append split_sep_nonempty)

lemma split_sep_single:
  "split_sep s = [seg] \<Longrightarrow> seg = s \<and> (\<forall>c \<in> set s. \<not> isSeparator c)"
proof (induction s arbitrary: seg)
  case Nil
  then show ?case by simp
next
  case (Cons c cs)
  then show ?case
    using split_sep_nonempty [of cs]
    by (cases "split_sep cs") (auto split: if_splits)
qed

lemma last_split_sep_empty_iff:
  "last (split_sep s) = [] \<longleftrightarrow> s = [] \<or> isSeparator (last s)"
proof (induction s)
  case Nil
  then show ?case by simp
next
  case (Cons c cs)
  show ?case
  proof (cases "isSeparator c")
    case True
    then show ?thesis using Cons split_sep_nonempty [of cs] by auto
  next
    case False
    obtain seg segs where sp: "split_sep cs = seg # segs"
      using split_sep_nonempty [of cs] by (cases "split_sep cs") auto
    show ?thesis
    proof (cases segs)
      case Nil
      with sp have "seg = cs" "\<forall>c \<in> set cs. \<not> isSeparator c" using split_sep_single by blast+
      then show ?thesis using False sp Nil by auto
    next
      case (Cons x xs)
      then have "cs \<noteq> []" using sp by auto
      then show ?thesis using False sp Cons Cons.IH by auto
    qed
  qed
qed

lemma baseNameOf_append:
  assumes "isSeparator sep" "base \<noteq> []" "\<not> isSeparator (last base)"
  shows "baseNameOf (dir @ [sep] @ base) = baseNameOf base"
  using assms last_split_sep_empty_iff [of base]
  by (simp add: baseNameOf_def Let_def last_split_sep_append)

lemma fst_some_pattern_world:
  "fst (some_pattern h b ps w) = fst (some_pattern h b ps w')"
  by (induction ps arbitrary: w w') (auto simp: Let_def split: sum.splits)

lemma fst_isEligible:
  "fst (isEligible h f patterns w) =
     (case patterns of
        Undefined \<Rightarrow> Inr True
      | Null \<Rightarrow> Inr True
      | Defined ps \<Rightarrow>
          if ps = [] \<or> js ''*'' \<in> set ps then Inr True
          else fst (some_pattern h (baseNameOf f) ps w))"
proof (cases patterns)
  case (Defined ps)
  obtain r w2 where "some_pattern h (baseNameOf f) ps
      (appendLine (PatternsToMatch ps) (appendLine (Basename (baseNameOf f)) (appendLine (FullPath f) w))) = (r, w2)"
    by (cases "some_pattern h (baseNameOf f) ps
      (appendLine (PatternsToMatch ps) (appendLine (Basename (baseNameOf f)) (appendLine (FullPath f) w)))")
  moreover from this have "fst (some_pattern h (baseNameOf f) ps w) = r"
    using fst_some_pattern_world [of h "baseNameOf f" ps w] by (metis fst_conv)
  ultimately show ?thesis
    using Defined by (cases r) (auto simp: isEligible_def Let_def)
qed (simp_all add: isEligible_def)

lemma some_pattern_raises:
  "fst (some_pattern h b ps w) = Inl err \<Longrightarrow> \<exists>p \<in> set ps. minimatch h b p = Inl err"
  by (induction ps arbitrary: w) (auto simp: Let_def split: sum.splits if_splits)

lemma some_pattern_returns:
  "\<forall>p \<in> set ps. \<exists>r. minimatch h b p = Inr r \<Longrightarrow>
   fst (some_pattern h b ps w) = Inr (\<exists>p \<in> set ps. minimatch h b p = Inr True)"
  by (induction ps arbitrary: w) (auto simp: Let_def split: sum.splits)

lemma some_pattern_skip:
  "minimatch h b p = Inr False \<Longrightarrow>
   fst (some_pattern h b (ps1 @ p # ps2) w) = fst (some_pattern h b (ps1 @ ps2) w')"
proof (induction ps1 arbitrary: w w')
  case Nil
  then show ?case using fst_some_pattern_world [of h b ps2] by (simp add: Let_def)
next
  case (Cons q qs)
  then show ?case by (auto simp: Let_def split: sum.splits)
qed


lemma baseNameOf_trailing_separator:
  "fname = [] \<or> isSeparator (last fname) \<Longrightarrow> baseNameOf fname = fname"
  using last_split_sep_empty_iff [of fname] by (simp add: baseNameOf_def)

lemma baseNameOf_last_segment:
  "fname \<noteq> [] \<Longrightarrow> \<not> isSeparator (last fname) \<Longrightarrow> baseNameOf fname = last (split_sep fname)"
  using last_split_sep_empty_iff [of fname] by (simp add: baseNameOf_def)

lemma some_pattern_raise_exact:
  "\<forall>p \<in> set ps1. minimatch h b p = Inr False \<Longrightarrow> minimatch h b q = Inl err \<Longrightarrow>
   some_pattern h b (ps1 @ q # ps2) w =
     (Inl err, w\<lparr>effects := effects w @ map (\<lambda>p. AppendLine (PatternResult p False)) ps1\<rparr>)"
  by (induction ps1 arbitrary: w) (simp_all add: Let_def appendLine_def emit_def)

lemma some_pattern_match_exact:
  "\<forall>p \<in> set ps1. minimatch h b p = Inr False \<Longrightarrow> minimatch h b q = Inr True \<Longrightarrow>
   some_pattern h b (ps1 @ q # ps2) w =
     (Inr True, w\<lparr>effects := effects w @ map (\<lambda>p. AppendLine (PatternResult p False)) ps1
                                  @ [AppendLine (PatternResult q True)]\<rparr>)"
  by (induction ps1 arbitrary: w) (simp_all add: Let_def appendLine_def emit_def)

lemma some_pattern_raises_first:
  "fst (some_pattern h b ps w) = Inl err \<Longrightarrow>
   \<exists>ps1 q ps2. ps = ps1 @ q # ps2 \<and> (\<forall>p \<in> set ps1. minimatch h b p = Inr False)
               \<and> minimatch h b q = Inl err"
proof (induction ps arbitrary: w)
  case Nil
  then show ?case by simp
next
  case (Cons p rest)
  show ?case
  proof (cases "minimatch h b p")
    case (Inl e)
    with Cons.prems have "e = err" by simp
    with Inl have "p # rest = [] @ p # rest \<and> (\<forall>x \<in> set []. minimatch h b x = Inr False)
                   \<and> minimatch h b p = Inl err" by simp
    then show ?thesis by blast
  next
    case (Inr r)
    show ?thesis
    proof (cases r)
      case True
      with Inr Cons.prems show ?thesis by (simp add: Let_def)
    next
      case False
      with Inr Cons.prems have "fst (some_pattern h b rest (appendLine (PatternResult p False) w)) = Inl err"
        by (simp add: Let_def)
      from Cons.IH [OF this] obtain ps1 q ps2 where
        d: "rest = ps1 @ q # ps2" "\<forall>x \<in> set ps1. minimatch h b x = Inr False" "minimatch h b q = Inl err"
        by blast
      with Inr False have "p # rest = (p # ps1) @ q # ps2 \<and> (\<forall>x \<in> set (p # ps1). minimatch h b x = Inr False)
                     \<and> minimatch h b q = Inl err" by simp
      then show ?thesis by blast
    qed
  qed
qed

text \<open>
  C6. When the value read for the patterns is \<open>undefined\<close>, \<open>null\<close>, the empty list, or
  a list containing "*", the file is eligible whatever its name and whatever the matcher
  does; so is it for \<open>isBoostEnabledForFile\<close> when the setting holds such a value (an
  unset setting reads as the default list, the one pattern "*.prompt.md").
\<close>

theorem isEligible_unconditional:
  assumes "patterns = Undefined \<or> patterns = Null \<or> patterns = Defined []
           \<or> (\<exists>ps. patterns = Defined ps \<and> js ''*'' \<in> set ps)"
  shows "fst (isEligible h fname patterns w) = Inr True
         \<and> (filePatterns w = patterns \<and> patterns \<noteq> Undefined \<longrightarrow>
              fst (isBoostEnabledForFile h fname w) = Inr True)"
  using assms by (auto simp: fst_isEligible isBoostEnabledForFile_def config_get_def)

theorem isEligible_unconditional_witness:
  "(\<exists>ps. Defined [js ''*.prompt.md'', js ''*''] = Defined ps \<and> js ''*'' \<in> set ps)
   \<and> fst (isEligible sample_host (js ''notes.txt'') (Defined [js ''*.prompt.md'', js ''*'']) sample_world)
       = Inr True
   \<and> fst (isBoostEnabledForFile sample_host (js ''notes.txt'')
              (sample_world\<lparr>filePatterns := Defined [js ''*.prompt.md'', js ''*'']\<rparr>)) = Inr True"
proof -
  have a: "\<exists>ps. Defined [js ''*.prompt.md'', js ''*''] = Defined ps \<and> js ''*'' \<in> set ps"
    by simp
  then have b: "Defined [js ''*.prompt.md'', js ''*''] = Undefined
             \<or> Defined [js ''*.prompt.md'', js ''*''] = Null
             \<or> Defined [js ''*.prompt.md'', js ''*''] = Defined []
             \<or> (\<exists>ps. Defined [js ''*.prompt.md'', js ''*''] = Defined ps \<and> js ''*'' \<in> set ps)"
    by blast
  from a isEligible_unconditional [OF b, of sample_host "js ''notes.txt''" sample_world]
    isEligible_unconditional [OF b, of sample_host "js ''notes.txt''"
      "sample_world\<lparr>filePatterns := Defined [js ''*.prompt.md'', js ''*'']\<rparr>"]
  show ?thesis by simp
qed

text \<open>
  C7, as the code has it. For a separator \<open>sep\<close> (slash or backslash) and a \<open>base\<close> that is
  not empty and does not end in a separator, the file \<open>dir + sep + base\<close> is as eligible
  as \<open>base\<close>: both are matched on the last segment of \<open>base\<close>. The example is the
  one of the specification, "a/b/c.md" against "*.md". A name that is empty or ends in a
  separator has an empty last segment, and then the whole name is the base name the
  patterns are matched against; every other name is matched on its last segment, which
  is not empty.
\<close>

theorem isEligible_final_segment:
  "(isSeparator sep \<and> base \<noteq> [] \<and> \<not> isSeparator (last base) \<longrightarrow>
      fst (isEligible h (dir @ [sep] @ base) patterns w) = fst (isEligible h base patterns w)
      \<and> baseNameOf (dir @ [sep] @ base) = last (split_sep base))
   \<and> (fname = [] \<or> isSeparator (last fname) \<longrightarrow>
        baseNameOf fname = fname
        \<and> fst (isEligible h fname patterns w) =
            (case patterns of
               Undefined \<Rightarrow> Inr True
             | Null \<Rightarrow> Inr True
             | Defined ps \<Rightarrow>
                 if ps = [] \<or> js ''*'' \<in> set ps then Inr True
                 else fst (some_pattern h fname ps w)))
   \<and> (fname \<noteq> [] \<and> \<not> isSeparator (last fname) \<longrightarrow>
        baseNameOf fname = last (split_sep fname) \<and> last (split_sep fname) \<noteq> [])"
proof (intro conjI impI)
  assume a: "isSeparator sep \<and> base \<noteq> [] \<and> \<not> isSeparator (last base)"
  then have c: "baseNameOf (dir @ [sep] @ base) = baseNameOf base"
    using baseNameOf_append [of sep base dir] by blast
  moreover from a have b: "baseNameOf base = last (split_sep base)"
    by (simp add: baseNameOf_last_segment)
  ultimately show "fst (isEligible h (dir @ [sep] @ base) patterns w) = fst (isEligible h base patterns w)"
    by (simp add: fst_isEligible split: nullable.splits)
  from c b show "baseNameOf (dir @ [sep] @ base) = last (split_sep base)"
    by simp
next
  assume a: "fname = [] \<or> isSeparator (last fname)"
  then show b: "baseNameOf fname = fname" by (rule baseNameOf_trailing_separator)
  show "fst (isEligible h fname patterns w) =
            (case patterns of
               Undefined \<Rightarrow> Inr True
             | Null \<Rightarrow> Inr True
             | Defined ps \<Rightarrow>
                 if ps = [] \<or> js ''*'' \<in> set ps then Inr True
                 else fst (some_pattern h fname ps w))"
    by (simp add: fst_isEligible b split: nullable.splits)
next
  assume a: "fname \<noteq> [] \<and> \<not> isSeparator (last fname)"
  then show "baseNameOf fname = last (split_sep fname)" by (simp add: baseNameOf_last_segment)
  from a show "last (split_sep fname) \<noteq> []" by (simp add: last_split_sep_empty_iff)
qed

theorem isEligible_final_segment_witness:
  "isSeparator 0x2F \<and> js ''c.md'' \<noteq> [] \<and> \<not> isSeparator (last (js ''c.md''))
   \<and> fst (isEligible sample_host (js ''a/b'' @ [0x2F] @ js ''c.md'') (Defined [js ''*.md'']) sample_world)
     = fst (isEligible sample_host (js ''c.md'') (Defined [js ''*.md'']) sample_world)
   \<and> fst (isEligible sample_host (js ''c.md'') (Defined [js ''*.md'']) sample_world) = Inr True
   \<and> isSeparator (last (js ''a/b/'')) \<and> baseNameOf (js ''a/b/'') = js ''a/b/''"
proof -
  have a: "isSeparator 0x2F" by (simp add: isSeparator_def)
  have b: "js ''c.md'' \<noteq> []" by (simp add: js_def)
  have c: "\<not> isSeparator (last (js ''c.md''))" by (simp add: js_def isSeparator_def)
  have d: "fst (isEligible sample_host (js ''c.md'') (Defined [js ''*.md'']) sample_world) = Inr True"
    by (simp add: fst_isEligible baseNameOf_def isSeparator_def sample_host_def sample_minimatch_def
                  Let_def js_def)
  have e: "isSeparator (last (js ''a/b/''))" by (simp add: js_def isSeparator_def)
  note t = isEligible_final_segment
    [where sep = "0x2F" and base = "js ''c.md''" and h = sample_host and dir = "js ''a/b''"
       and patterns = "Defined [js ''*.md'']" and w = sample_world and fname = "js ''a/b/''"]
  from a b c d e t show ?thesis by simp
qed

text \<open>
  C7 as stated fails for a name that ends in a separator: its last segment is empty, and
  \<open>segments.pop() || fileName\<close> then matches the whole name. With the pattern "a/b/",
  "a/b/" is eligible and its final segment "" is not.
\<close>

theorem isEligible_trailing_separator_counterexample:
  "isSeparator 0x2F
   \<and> baseNameOf (js ''a/b'' @ [0x2F] @ []) = js ''a/b/''
   \<and> baseNameOf [] = []
   \<and> fst (isEligible sample_host (js ''a/b'' @ [0x2F] @ []) (Defined [js ''a/b/'']) sample_world) = Inr True
   \<and> fst (isEligible sample_host [] (Defined [js ''a/b/'']) sample_world) = Inr False"
  by (simp add: fst_isEligible baseNameOf_def isSeparator_def sample_host_def sample_minimatch_def
                Let_def js_def)

lemma sample_matches:
  "minimatch sample_host (js ''notes.md'') (js ''[abc'') = Inr False"
  "minimatch sample_host (js ''notes.md'') (js ''*.md'') = Inr True"
  by (simp_all add: sample_host_def sample_minimatch_def js_def)

lemma baseNameOf_notes: "baseNameOf (js ''notes.md'') = js ''notes.md''"
  by (simp add: baseNameOf_def isSeparator_def js_def)

lemma isEligible_raise_exact:
  assumes "\<forall>p \<in> set ps1. minimatch h (baseNameOf fname) p = Inr False"
    and "minimatch h (baseNameOf fname) q = Inl err"
    and "js ''*'' \<notin> set (ps1 @ q # ps2)"
  shows "isEligible h fname (Defined (ps1 @ q # ps2)) w =
           (Inl err,
            w\<lparr>effects := effects w
                 @ [AppendLine (FullPath fname), AppendLine (Basename (baseNameOf fname)),
                    AppendLine (PatternsToMatch (ps1 @ q # ps2))]
                 @ map (\<lambda>p. AppendLine (PatternResult p False)) ps1\<rparr>)"
  using assms(3)
  by (simp add: isEligible_def Let_def some_pattern_raise_exact [OF assms(1) assms(2)]
                appendLine_def emit_def)

lemma isEligible_match_exact:
  assumes "\<forall>p \<in> set ps1. minimatch h (baseNameOf fname) p = Inr False"
    and "minimatch h (baseNameOf fname) q = Inr True"
    and "js ''*'' \<notin> set (ps1 @ q # ps2)"
  shows "isEligible h fname (Defined (ps1 @ q # ps2)) w =
           (Inr True,
            w\<lparr>effects := effects w
                 @ [AppendLine (FullPath fname), AppendLine (Basename (baseNameOf fname)),
                    AppendLine (PatternsToMatch (ps1 @ q # ps2))]
                 @ map (\<lambda>p. AppendLine (PatternResult p False)) ps1
                 @ [AppendLine (PatternResult q True), AppendLine (FinalResult True)]\<rparr>)"
  using assms(3)
  by (simp add: isEligible_def Let_def some_pattern_match_exact [OF assms(1) assms(2)]
                appendLine_def emit_def)

text \<open>
  C8, as the code has it. \<open>isBoostEnabledForFile\<close> has no handler around the matcher. It
  throws only when the patterns split into patterns that all answer "no match", then a
  pattern on which \<open>minimatch\<close> throws; it then throws that exception, having logged the
  file, the base name, the list and one line for each pattern before, and nothing for a
  later pattern: the later patterns are not tried. In the same way the first pattern that
  matches ends the search with true, whatever the matcher would do on the patterns after
  it. When the matcher returns for every pattern, the function returns, true exactly when
  the list is empty, contains "*", or some pattern matches the base name. A pattern on
  which the matcher answers "no match" (the fate the specification gives a malformed
  glob) does not change the outcome of the patterns around it.
\<close>

theorem isEligible_raises_only_from_minimatch:
  "(fst (isEligible h fname patterns w) = Inl err \<longrightarrow>
      (\<exists>xs q' ys. patterns = Defined (xs @ q' # ys)
         \<and> (\<forall>p \<in> set xs. minimatch h (baseNameOf fname) p = Inr False)
         \<and> minimatch h (baseNameOf fname) q' = Inl err))
   \<and> ((\<forall>p \<in> set pre. minimatch h (baseNameOf fname) p = Inr False)
        \<and> minimatch h (baseNameOf fname) q = Inl err \<and> js ''*'' \<notin> set (pre @ q # post) \<longrightarrow>
        isEligible h fname (Defined (pre @ q # post)) w =
          (Inl err,
           w\<lparr>effects := effects w
                @ [AppendLine (FullPath fname), AppendLine (Basename (baseNameOf fname)),
                   AppendLine (PatternsToMatch (pre @ q # post))]
                @ map (\<lambda>p. AppendLine (PatternResult p False)) pre\<rparr>))
   \<and> ((\<forall>p \<in> set pre. minimatch h (baseNameOf fname) p = Inr False)
        \<and> minimatch h (baseNameOf fname) q = Inr True \<and> js ''*'' \<notin> set (pre @ q # post) \<longrightarrow>
        isEligible h fname (Defined (pre @ q # post)) w =
          (Inr True,
           w\<lparr>effects := effects w
                @ [AppendLine (FullPath fname), AppendLine (Basename (baseNameOf fname)),
                   AppendLine (PatternsToMatch (pre @ q # post))]
                @ map (\<lambda>p. AppendLine (PatternResult p False)) pre
                @ [AppendLine (PatternResult q True), AppendLine (FinalResult True)]\<rparr>))
   \<and> ((\<forall>p \<in> set ps. \<exists>r. minimatch h (baseNameOf fname) p = Inr r) \<longrightarrow>
        fst (isEligible h fname (Defined ps) w) =
          Inr (ps = [] \<or> js ''*'' \<in> set ps \<or> (\<exists>p \<in> set ps. minimatch h (baseNameOf fname) p = Inr True)))
   \<and> (minimatch h (baseNameOf fname) q = Inr False \<and> q \<noteq> js ''*'' \<and> pre @ post \<noteq> [] \<longrightarrow>
        fst (isEligible h fname (Defined (pre @ q # post)) w) =
        fst (isEligible h fname (Defined (pre @ post)) w))"
proof (intro conjI impI)
  assume r: "fst (isEligible h fname patterns w) = Inl err"
  then obtain ps where ps: "patterns = Defined ps" "ps \<noteq> []" "js ''*'' \<notin> set ps"
    and sp: "fst (some_pattern h (baseNameOf fname) ps w) = Inl err"
    by (cases patterns) (auto simp: fst_isEligible split: if_splits)
  from some_pattern_raises_first [OF sp] ps(1)
  show "\<exists>xs q' ys. patterns = Defined (xs @ q' # ys)
         \<and> (\<forall>p \<in> set xs. minimatch h (baseNameOf fname) p = Inr False)
         \<and> minimatch h (baseNameOf fname) q' = Inl err"
    by blast
next
  assume "(\<forall>p \<in> set pre. minimatch h (baseNameOf fname) p = Inr False)
        \<and> minimatch h (baseNameOf fname) q = Inl err \<and> js ''*'' \<notin> set (pre @ q # post)"
  then show "isEligible h fname (Defined (pre @ q # post)) w =
          (Inl err,
           w\<lparr>effects := effects w
                @ [AppendLine (FullPath fname), AppendLine (Basename (baseNameOf fname)),
                   AppendLine (PatternsToMatch (pre @ q # post))]
                @ map (\<lambda>p. AppendLine (PatternResult p False)) pre\<rparr>)"
    using isEligible_raise_exact by blast
next
  assume "(\<forall>p \<in> set pre. minimatch h (baseNameOf fname) p = Inr False)
        \<and> minimatch h (baseNameOf fname) q = Inr True \<and> js ''*'' \<notin> set (pre @ q # post)"
  then show "isEligible h fname (Defined (pre @ q # post)) w =
          (Inr True,
           w\<lparr>effects := effects w
                @ [AppendLine (FullPath fname), AppendLine (Basename (baseNameOf fname)),
                   AppendLine (PatternsToMatch (pre @ q # post))]
                @ map (\<lambda>p. AppendLine (PatternResult p False)) pre
                @ [AppendLine (PatternResult q True), AppendLine (FinalResult True)]\<rparr>)"
    using isEligible_match_exact by blast
next
  assume "\<forall>p \<in> set ps. \<exists>r. minimatch h (baseNameOf fname) p = Inr r"
  from some_pattern_returns [OF this]
  show "fst (isEligible h fname (Defined ps) w) =
          Inr (ps = [] \<or> js ''*'' \<in> set ps \<or> (\<exists>p \<in> set ps. minimatch h (baseNameOf fname) p = Inr True))"
    by (simp add: fst_isEligible)
next
  assume a: "minimatch h (baseNameOf fname) q = Inr False \<and> q \<noteq> js ''*'' \<and> pre @ post \<noteq> []"
  then have "fst (some_pattern h (baseNameOf fname) (pre @ q # post) w) =
             fst (some_pattern h (baseNameOf fname) (pre @ post) w)"
    using some_pattern_skip by blast
  with a show "fst (isEligible h fname (Defined (pre @ q # post)) w) =
               fst (isEligible h fname (Defined (pre @ post)) w)"
    by (auto simp: fst_isEligible)
qed

theorem isEligible_raises_only_from_minimatch_witness:
  "minimatch sample_host (baseNameOf (js ''notes.md'')) (js ''[abc'') = Inr False
   \<and> js ''[abc'' \<noteq> js ''*'' \<and> [] @ [js ''*.md''] \<noteq> []
   \<and> fst (isEligible sample_host (js ''notes.md'') (Defined ([] @ js ''[abc'' # [js ''*.md''])) sample_world)
       = fst (isEligible sample_host (js ''notes.md'') (Defined ([] @ [js ''*.md''])) sample_world)
   \<and> fst (isEligible sample_host (js ''notes.md'') (Defined [js ''*.md'']) sample_world) = Inr True
   \<and> minimatch sample_host (baseNameOf (js ''notes.md'')) (js ''*.md'') = Inr True
   \<and> js ''*'' \<notin> set ([] @ js ''*.md'' # [replicate 65537 0x61])
   \<and> isEligible sample_host (js ''notes.md'') (Defined [js ''*.md'', replicate 65537 0x61]) sample_world
       = (Inr True,
          sample_world\<lparr>effects :=
            [AppendLine (FullPath (js ''notes.md'')), AppendLine (Basename (js ''notes.md'')),
             AppendLine (PatternsToMatch [js ''*.md'', replicate 65537 0x61]),
             AppendLine (PatternResult (js ''*.md'') True), AppendLine (FinalResult True)]\<rparr>)"
proof -
  have a: "minimatch sample_host (baseNameOf (js ''notes.md'')) (js ''[abc'') = Inr False"
    by (simp add: baseNameOf_notes sample_matches)
  have b: "js ''[abc'' \<noteq> js ''*''" by (simp add: js_def)
  have c: "[] @ [js ''*.md''] \<noteq> []" by simp
  have d: "\<forall>p \<in> set [js ''*.md'']. \<exists>r. minimatch sample_host (baseNameOf (js ''notes.md'')) p = Inr r"
    by (auto simp: baseNameOf_notes sample_matches)
  note t = isEligible_raises_only_from_minimatch
    [where h = sample_host and fname = "js ''notes.md''" and w = sample_world
       and pre = "[]" and q = "js ''[abc''" and post = "[js ''*.md'']" and ps = "[js ''*.md'']"]
  have e: "fst (isEligible sample_host (js ''notes.md'') (Defined [js ''*.md'']) sample_world) = Inr True"
    using t d by (simp add: baseNameOf_notes sample_matches)
  from t a b c have f: "fst (isEligible sample_host (js ''notes.md'') (Defined ([] @ js ''[abc'' # [js ''*.md''])) sample_world)
       = fst (isEligible sample_host (js ''notes.md'') (Defined ([] @ [js ''*.md''])) sample_world)"
    by blast
  have n: "js ''*'' \<noteq> replicate 65537 (0x61 :: 16 word)"
  proof
    assume "js ''*'' = replicate 65537 (0x61 :: 16 word)"
    then have "length (js ''*'') = length (replicate 65537 (0x61 :: 16 word))" by (rule arg_cong)
    then show False by (simp add: js_def)
  qed
  have m: "js ''*'' \<noteq> js ''*.md''" by (simp add: js_def)
  have g: "minimatch sample_host (baseNameOf (js ''notes.md'')) (js ''*.md'') = Inr True"
    by (simp add: baseNameOf_notes sample_matches)
  have k: "js ''*'' \<notin> set ([] @ js ''*.md'' # [replicate 65537 0x61])"
    using n m by simp
  note u = isEligible_raises_only_from_minimatch
    [where h = sample_host and fname = "js ''notes.md''" and w = sample_world
       and pre = "[]" and q = "js ''*.md''" and post = "[replicate 65537 0x61]",
     THEN conjunct2, THEN conjunct2, THEN conjunct1]
  from u g k have s: "isEligible sample_host (js ''notes.md'') (Defined [js ''*.md'', replicate 65537 0x61]) sample_world
       = (Inr True,
          sample_world\<lparr>effects :=
            [AppendLine (FullPath (js ''notes.md'')), AppendLine (Basename (js ''notes.md'')),
             AppendLine (PatternsToMatch [js ''*.md'', replicate 65537 0x61]),
             AppendLine (PatternResult (js ''*.md'') True), AppendLine (FinalResult True)]\<rparr>)"
    by (simp add: baseNameOf_notes sample_world_def)
  from a b c e f g k s show ?thesis by simp
qed

text \<open>
  C8 as stated fails when the matcher throws: the library rejects a pattern of more than
  65536 code units with a TypeError, which leaves \<open>patterns.some\<close> and the function; the
  pattern "*.md" after it, which matches, is never tried.
\<close>

theorem isEligible_long_pattern_counterexample:
  "fst (isEligible sample_host (js ''notes.md'') (Defined [replicate 65537 0x61, js ''*.md'']) sample_world)
     = Inl (TypeError (js ''pattern is too long''))
   \<and> minimatch sample_host (js ''notes.md'') (js ''*.md'') = Inr True"
proof -
  have n: "js ''*'' \<noteq> replicate 65537 (0x61 :: 16 word)"
  proof
    assume "js ''*'' = replicate 65537 (0x61 :: 16 word)"
    then have "length (js ''*'') = length (replicate 65537 (0x61 :: 16 word))" by (rule arg_cong)
    then show False by (simp add: js_def)
  qed
  have m: "js ''*'' \<noteq> js ''*.md''" by (simp add: js_def)
  have t: "minimatch sample_host (js ''notes.md'') (replicate 65537 0x61) = Inl (TypeError (js ''pattern is too long''))"
    by (simp add: sample_host_def sample_minimatch_def)
  show ?thesis
    using n m t by (simp add: fst_isEligible baseNameOf_notes sample_matches)
qed

subsection \<open>The instruction file\<close>

lemma DEFAULT_BOOST_INSTRUCTIONS_nonempty: "DEFAULT_BOOST_INSTRUCTIONS \<noteq> []"
  by (simp add: DEFAULT_BOOST_INSTRUCTIONS_def nl_def)


text \<open>
  C9, as the code has it. \<open>readInstructionFile\<close> never throws. It returns the contents of
  the instruction file when the file exists and can be read, and the compiled-in default,
  which is not empty, when the file is missing or reading it throws. The result is
  therefore not empty unless the file exists, is readable and is empty.
\<close>

theorem readInstructionFile_contents_or_default:
  "fst (readInstructionFile h ctx w) =
     Inr (case files w (getInstructionFilePath h ctx) of
            None \<Rightarrow> DEFAULT_BOOST_INSTRUCTIONS
          | Some (File contents) \<Rightarrow> contents
          | Some (Unreadable err) \<Rightarrow> DEFAULT_BOOST_INSTRUCTIONS)
   \<and> DEFAULT_BOOST_INSTRUCTIONS \<noteq> []
   \<and> (files w (getInstructionFilePath h ctx) \<noteq> Some (File []) \<longrightarrow>
        fst (readInstructionFile h ctx w) \<noteq> Inr [])"
  using DEFAULT_BOOST_INSTRUCTIONS_nonempty
  by (auto simp: readInstructionFile_def existsSync_def readFileSync_def Let_def
           split: option.splits node.splits)

theorem readInstructionFile_contents_or_default_witness:
  "files (sample_world\<lparr>files := [js ''/storage/boost.prompt.md'' \<mapsto> Unreadable (HostError (js ''EACCES''))]\<rparr>)
         (getInstructionFilePath sample_host sample_context) \<noteq> Some (File [])
   \<and> fst (readInstructionFile sample_host sample_context
           (sample_world\<lparr>files := [js ''/storage/boost.prompt.md'' \<mapsto> Unreadable (HostError (js ''EACCES''))]\<rparr>))
       = Inr DEFAULT_BOOST_INSTRUCTIONS
   \<and> fst (readInstructionFile sample_host sample_context
           (sample_world\<lparr>files := [js ''/storage/boost.prompt.md'' \<mapsto> Unreadable (HostError (js ''EACCES''))]\<rparr>))
       \<noteq> Inr []"
proof -
  let ?w = "sample_world\<lparr>files := [js ''/storage/boost.prompt.md'' \<mapsto> Unreadable (HostError (js ''EACCES''))]\<rparr>"
  have p: "getInstructionFilePath sample_host sample_context = js ''/storage/boost.prompt.md''"
    by (simp add: getInstructionFilePath_def sample_host_def sample_context_def js_def)
  have a: "files ?w (getInstructionFilePath sample_host sample_context) = Some (Unreadable (HostError (js ''EACCES'')))"
    by (simp add: p)
  from a readInstructionFile_contents_or_default [of sample_host sample_context ?w]
  show ?thesis by simp
qed

text \<open>
  C9 as stated fails for an instruction file that exists and is empty (the user may save
  it so): its contents, the empty string, are returned as they are.
\<close>

theorem readInstructionFile_empty_file_counterexample:
  "files (sample_world\<lparr>files := [js ''/storage/boost.prompt.md'' \<mapsto> File []]\<rparr>)
         (getInstructionFilePath sample_host sample_context) = Some (File [])
   \<and> readInstructionFile sample_host sample_context
         (sample_world\<lparr>files := [js ''/storage/boost.prompt.md'' \<mapsto> File []]\<rparr>)
       = (Inr [], sample_world\<lparr>files := [js ''/storage/boost.prompt.md'' \<mapsto> File []]\<rparr>)"
proof -
  have p: "getInstructionFilePath sample_host sample_context = js ''/storage/boost.prompt.md''"
    by (simp add: getInstructionFilePath_def sample_host_def sample_context_def js_def)
  show ?thesis
    by (simp add: p readInstructionFile_def existsSync_def readFileSync_def)
qed

end
